theory Spec2Isabelle
  imports Main
begin

section \<open>Python strings\<close>

text \<open>
  A Python \<open>str\<close> is modelled as a \<^typ>\<open>string\<close>: the character with code \<open>n\<close> stands for
  the code point \<open>n\<close>, for the 256 code points below \<open>0x100\<close>. The string methods the
  program calls are written out: \<open>lower\<close>, \<open>upper\<close>, \<open>strip\<close>, \<open>split\<close>, \<open>rfind\<close>,
  \<open>startswith\<close>, \<open>in\<close> and \<open>join\<close>.
\<close>

text \<open>
  \<open>str.lower\<close>: the letters A-Z and the capital letters \<open>0xC0\<close>-\<open>0xDE\<close> (all but the
  multiplication sign \<open>0xD7\<close>) go to their small letter, \<open>0x20\<close> further; every other
  character stays.
\<close>

definition upper_letters :: string where
  "upper_letters = ''ABCDEFGHIJKLMNOPQRSTUVWXYZ'' @
       [CHR 0xC0, CHR 0xC1, CHR 0xC2, CHR 0xC3, CHR 0xC4, CHR 0xC5, CHR 0xC6, CHR 0xC7,
        CHR 0xC8, CHR 0xC9, CHR 0xCA, CHR 0xCB, CHR 0xCC, CHR 0xCD, CHR 0xCE, CHR 0xCF,
        CHR 0xD0, CHR 0xD1, CHR 0xD2, CHR 0xD3, CHR 0xD4, CHR 0xD5, CHR 0xD6, CHR 0xD8,
        CHR 0xD9, CHR 0xDA, CHR 0xDB, CHR 0xDC, CHR 0xDD, CHR 0xDE]"

definition lower_letters :: string where
  "lower_letters = ''abcdefghijklmnopqrstuvwxyz'' @
       [CHR 0xE0, CHR 0xE1, CHR 0xE2, CHR 0xE3, CHR 0xE4, CHR 0xE5, CHR 0xE6, CHR 0xE7,
        CHR 0xE8, CHR 0xE9, CHR 0xEA, CHR 0xEB, CHR 0xEC, CHR 0xED, CHR 0xEE, CHR 0xEF,
        CHR 0xF0, CHR 0xF1, CHR 0xF2, CHR 0xF3, CHR 0xF4, CHR 0xF5, CHR 0xF6, CHR 0xF8,
        CHR 0xF9, CHR 0xFA, CHR 0xFB, CHR 0xFC, CHR 0xFD, CHR 0xFE]"

definition lower_char :: "char \<Rightarrow> char" where
  "lower_char c = (case map_of (zip upper_letters lower_letters) c of Some d \<Rightarrow> d | None \<Rightarrow> c)"

definition lower :: "string \<Rightarrow> string" where
  "lower s = map lower_char s"

text \<open>
  The white space of \<open>str.strip\<close> and \<open>str.split\<close> (the characters for which
  \<open>str.isspace\<close> holds): tab to carriage return, the four separators \<open>0x1C\<close>-\<open>0x1F\<close>,
  the space, the next-line control \<open>0x85\<close> and the no-break space \<open>0xA0\<close>.
\<close>

definition is_space :: "char \<Rightarrow> bool" where
  "is_space c \<longleftrightarrow>
     c \<in> set [CHR 0x09, CHR 0x0A, CHR 0x0B, CHR 0x0C, CHR 0x0D,
                CHR 0x1C, CHR 0x1D, CHR 0x1E, CHR 0x1F, CHR 0x20, CHR 0x85, CHR 0xA0]"

definition lstrip :: "string \<Rightarrow> string" where
  "lstrip s = dropWhile is_space s"

definition rstrip :: "string \<Rightarrow> string" where
  "rstrip s = rev (dropWhile is_space (rev s))"

definition strip :: "string \<Rightarrow> string" where
  "strip s = rstrip (lstrip s)"


text \<open>\<open>s.split(c)\<close> for a separator of one character: never an empty list.\<close>

fun split_on :: "char \<Rightarrow> string \<Rightarrow> string list" where
  "split_on c [] = [[]]"
| "split_on c (x # xs) =
     (if x = c then [] # split_on c xs
      else (case split_on c xs of [] \<Rightarrow> [[x]] | w # ws \<Rightarrow> (x # w) # ws))"

text \<open>\<open>s.split(c)[0]\<close>: the text before the first separator.\<close>

definition first_field :: "char \<Rightarrow> string \<Rightarrow> string" where
  "first_field c s = (case split_on c s of [] \<Rightarrow> [] | w # ws \<Rightarrow> w)"




text \<open>\<open>s.rfind(c)\<close>: the index of the last occurrence of \<open>c\<close>, or \<open>-1\<close>.\<close>

fun rfind_from :: "char \<Rightarrow> int \<Rightarrow> int \<Rightarrow> string \<Rightarrow> int" where
  "rfind_from c i found [] = found"
| "rfind_from c i found (x # xs) = rfind_from c (i + 1) (if x = c then i else found) xs"

definition rfind :: "char \<Rightarrow> string \<Rightarrow> int" where
  "rfind c s = rfind_from c 0 (- 1) s"

definition startswith :: "'a list \<Rightarrow> 'a list \<Rightarrow> bool" where
  "startswith s p \<longleftrightarrow> take (length p) s = p"

text \<open>\<open>p in s\<close> on strings: \<open>p\<close> occurs as a contiguous substring of \<open>s\<close>.\<close>

fun contains :: "'a list \<Rightarrow> 'a list \<Rightarrow> bool" where
  "contains [] p \<longleftrightarrow> p = []"
| "contains (x # xs) p \<longleftrightarrow> take (length p) (x # xs) = p \<or> contains xs p"

text \<open>\<open>sep.join(parts)\<close>.\<close>

fun join :: "string \<Rightarrow> string list \<Rightarrow> string" where
  "join sep [] = []"
| "join sep [w] = w"
| "join sep (w # v # ws) = w @ sep @ join sep (v # ws)"

text \<open>
  \<open>str.upper\<close> can leave the 256 code points: the micro sign \<open>0xB5\<close> goes to \<open>0x39C\<close>, the
  small y with diaeresis \<open>0xFF\<close> to \<open>0x178\<close>, and the sharp s \<open>0xDF\<close> to the two letters
  \<open>SS\<close>. The result of \<open>upper\<close> is therefore a list of code points, and \<open>codes\<close> gives
  the code points of a string. The other small letters go to their capital letter and
  every other character stays.
\<close>

definition codes :: "string \<Rightarrow> nat list" where
  "codes s = map of_char s"

definition upper_char :: "char \<Rightarrow> nat list" where
  "upper_char c =
     (if c = CHR 0xB5 then [0x39C]
      else if c = CHR 0xDF then [0x53, 0x53]
      else if c = CHR 0xFF then [0x178]
      else (case map_of (zip lower_letters upper_letters) c of
              Some d \<Rightarrow> [of_char d]
            | None \<Rightarrow> [of_char c]))"

definition upper :: "string \<Rightarrow> nat list" where
  "upper s = concat (map upper_char s)"

text \<open>\<open>strip\<close> on a list of code points; the white space is the one of \<open>str.isspace\<close>.\<close>

definition is_space_code :: "nat \<Rightarrow> bool" where
  "is_space_code n \<longleftrightarrow>
     n \<in> set [0x09, 0x0A, 0x0B, 0x0C, 0x0D, 0x1C, 0x1D, 0x1E, 0x1F, 0x20, 0x85, 0xA0,
                0x1680, 0x2000, 0x2001, 0x2002, 0x2003, 0x2004, 0x2005, 0x2006, 0x2007,
                0x2008, 0x2009, 0x200A, 0x2028, 0x2029, 0x202F, 0x205F, 0x3000]"

definition strip_codes :: "nat list \<Rightarrow> nat list" where
  "strip_codes s = rev (dropWhile is_space_code (rev (dropWhile is_space_code s)))"

section \<open>Format handler\<close>

datatype RDFFormat =
  RDF_XML | TURTLE | N_TRIPLES | JSON_LD | TRIG | N_QUADS | TRIX | RDF_THRIFT | OWL_XML
  | DEFAULT

text \<open>The value of each member of the enumeration, and the lookup by value
  \<open>RDFFormat(name)\<close>, which raises \<open>ValueError\<close> (here \<open>None\<close>) on any other name.\<close>

definition RDFFormat_values :: "(string \<times> RDFFormat) list" where
  "RDFFormat_values =
     [(''rdf_xml'', RDF_XML), (''turtle'', TURTLE), (''n_triples'', N_TRIPLES),
      (''json_ld'', JSON_LD), (''trig'', TRIG), (''n_quads'', N_QUADS), (''trix'', TRIX),
      (''rdf_thrift'', RDF_THRIFT), (''owl_xml'', OWL_XML), (''default'', DEFAULT)]"

definition RDFFormat_of :: "string \<Rightarrow> RDFFormat option" where
  "RDFFormat_of name = map_of RDFFormat_values name"

definition MIME_TYPE_MAPPING :: "(string \<times> RDFFormat) list" where
  "MIME_TYPE_MAPPING =
     [(''application/rdf+xml'', RDF_XML),
      (''application/xml'', RDF_XML),
      (''text/xml'', RDF_XML),
      (''text/turtle'', TURTLE),
      (''application/turtle'', TURTLE),
      (''application/x-turtle'', TURTLE),
      (''application/n-triples'', N_TRIPLES),
      (''text/plain'', N_TRIPLES),
      (''application/ld+json'', JSON_LD),
      (''application/json'', JSON_LD),
      (''text/trig'', TRIG),
      (''application/trig'', TRIG),
      (''application/n-quads'', N_QUADS),
      (''text/n-quads'', N_QUADS),
      (''application/trix+xml'', TRIX),
      (''application/rdf+thrift'', RDF_THRIFT),
      (''application/owl+xml'', OWL_XML)]"

definition EXTENSION_MAPPING :: "(string \<times> RDFFormat) list" where
  "EXTENSION_MAPPING =
     [(''.rdf'', RDF_XML),
      (''.xml'', RDF_XML),
      (''.ttl'', TURTLE),
      (''.nt'', N_TRIPLES),
      (''.jsonld'', JSON_LD),
      (''.trig'', TRIG),
      (''.nq'', N_QUADS),
      (''.trix'', TRIX),
      (''.trdf'', RDF_THRIFT),
      (''.owl'', OWL_XML)]"

definition RDFLIB_FORMAT_MAPPING :: "(RDFFormat \<times> string) list" where
  "RDFLIB_FORMAT_MAPPING =
     [(RDF_XML, ''xml''),
      (TURTLE, ''turtle''),
      (N_TRIPLES, ''nt''),
      (JSON_LD, ''json-ld''),
      (TRIG, ''trig''),
      (N_QUADS, ''nquads''),
      (TRIX, ''trix''),
      (OWL_XML, ''xml'')]"

text \<open>
  \<open>Path(source).suffix\<close> of the standard library, for POSIX paths: the name is the last
  component of the path that is neither empty nor a single dot, and the suffix is the
  part of the name from its last dot on, when that dot is neither the first nor the last
  character of the name.
\<close>

definition path_name :: "string \<Rightarrow> string" where
  "path_name source =
     (case filter (\<lambda>x. x \<noteq> [] \<and> x \<noteq> ''.'') (split_on CHR ''/'' source) of
        [] \<Rightarrow> []
      | p # ps \<Rightarrow> last (p # ps))"

definition path_suffix :: "string \<Rightarrow> string" where
  "path_suffix source =
     (let name = path_name source; i = rfind CHR ''.'' name
      in if 0 < i \<and> i < int (length name) - 1 then drop (nat i) name else [])"

text \<open>
  \<open>FormatHandler.detect_format\<close>. The content type is tried first, when it is given and
  not empty; a content type that holds a semicolon is cut at the first one and stripped.
  When the MIME table has no entry the extension of the source decides, and RDF/XML is
  the answer when the extension table has no entry either.
\<close>

definition detect_format :: "string \<Rightarrow> string option \<Rightarrow> RDFFormat" where
  "detect_format source content_type =
     (let by_content_type =
        (case content_type of
           None \<Rightarrow> None
         | Some ct \<Rightarrow>
             if ct = [] then None
             else
               (let ct' = (if CHR '';'' \<in> set ct then strip (first_field CHR '';'' ct) else ct)
                in map_of MIME_TYPE_MAPPING ct'))
      in case by_content_type of
           Some f \<Rightarrow> f
         | None \<Rightarrow>
             (let extension = lower (path_suffix source)
              in case map_of EXTENSION_MAPPING extension of
                   Some f \<Rightarrow> f
                 | None \<Rightarrow> RDF_XML))"

definition get_rdflib_format :: "RDFFormat \<Rightarrow> string" where
  "get_rdflib_format rdf_format =
     (case map_of RDFLIB_FORMAT_MAPPING rdf_format of Some tok \<Rightarrow> tok | None \<Rightarrow> ''xml'')"

section \<open>RDF terms, triples and graphs\<close>

text \<open>
  The graph store is the external library. A term is a URI reference, a blank node or
  a literal (lexical form, language tag, datatype); \<open>str\<close> of a term is its text. Two
  terms are equal when they are of the same kind and have the same parts. A graph is a
  set of triples with a namespace manager: the triples are kept as a list without
  duplicates, in the order in which iterating the graph yields them, and the namespace
  manager as an association list from prefix to URI.
\<close>

datatype rdf_term =
  URIRef string
  | BNode string
  | Literal string "string option" "string option"

fun str_of :: "rdf_term \<Rightarrow> string" where
  "str_of (URIRef u) = u"
| "str_of (BNode b) = b"
| "str_of (Literal v lang dt) = v"

fun is_URIRef :: "rdf_term \<Rightarrow> bool" where
  "is_URIRef (URIRef u) = True"
| "is_URIRef t = False"

fun is_BNode :: "rdf_term \<Rightarrow> bool" where
  "is_BNode (BNode b) = True"
| "is_BNode t = False"

fun is_Literal :: "rdf_term \<Rightarrow> bool" where
  "is_Literal (Literal v lang dt) = True"
| "is_Literal t = False"

type_synonym triple = "rdf_term \<times> rdf_term \<times> rdf_term"

record graph =
  triples :: "triple list"
  namespaces :: "(string \<times> string) list"

definition empty_graph :: graph where
  "empty_graph = \<lparr>triples = [], namespaces = []\<rparr>"

text \<open>\<open>len(graph)\<close>.\<close>

definition graph_len :: "graph \<Rightarrow> nat" where
  "graph_len g = length (triples g)"

text \<open>\<open>graph.add(triple)\<close> on the value of a graph: a triple already there is not added
  again.\<close>

definition add_triple :: "triple \<Rightarrow> graph \<Rightarrow> graph" where
  "add_triple t g = (if t \<in> set (triples g) then g else g\<lparr>triples := triples g @ [t]\<rparr>)"

text \<open>\<open>graph.bind(prefix, namespace)\<close> on the value of a graph: the prefix is bound to the
  namespace, in place of an earlier binding of that prefix.\<close>

definition bind_prefix :: "string \<Rightarrow> string \<Rightarrow> graph \<Rightarrow> graph" where
  "bind_prefix prefix ns g =
     g\<lparr>namespaces :=
        (if prefix \<in> fst ` set (namespaces g)
         then map (\<lambda>(p, u). if p = prefix then (p, ns) else (p, u)) (namespaces g)
         else namespaces g @ [(prefix, ns)])\<rparr>"

text \<open>
  Graphs are objects: a function that receives a graph receives a reference to it, and
  \<open>add\<close> and \<open>bind\<close> change the object. The store holds every graph object; a reference
  is the index of the object, and \<open>Graph()\<close> puts a new empty graph at the next free
  index.
\<close>

type_synonym store = "graph list"

definition Graph_new :: "store \<Rightarrow> store \<times> nat" where
  "Graph_new st = (st @ [empty_graph], length st)"

definition graph_add :: "nat \<Rightarrow> triple \<Rightarrow> store \<Rightarrow> store" where
  "graph_add g t st = st[g := add_triple t (st ! g)]"

definition graph_bind :: "nat \<Rightarrow> string \<Rightarrow> string \<Rightarrow> store \<Rightarrow> store" where
  "graph_bind g prefix ns st = st[g := bind_prefix prefix ns (st ! g)]"

section \<open>Graph operations\<close>

text \<open>The entries of the configuration dictionary that the modelled operations read:
  \<open>config['namespaces']\<close> and \<open>config['prefixes']\<close>, each absent (\<open>None\<close>) or a dictionary
  from prefix to URI, in insertion order.\<close>

record config =
  cfg_namespaces :: "(string \<times> string) list option"
  cfg_prefixes :: "(string \<times> string) list option"

definition default_config :: config where
  "default_config = \<lparr>cfg_namespaces = None, cfg_prefixes = None\<rparr>"

definition RDF :: string where
  "RDF = ''http://www.w3.org/1999/02/22-rdf-syntax-ns#''"

definition RDFS :: string where
  "RDFS = ''http://www.w3.org/2000/01/rdf-schema#''"

definition XSD :: string where
  "XSD = ''http://www.w3.org/2001/XMLSchema#''"

definition OWL :: string where
  "OWL = ''http://www.w3.org/2002/07/owl#''"

text \<open>\<open>RDFToRDF.namespaces\<close>, set by the constructor.\<close>

definition common_namespaces :: "(string \<times> string) list" where
  "common_namespaces = [(''rdf'', RDF), (''rdfs'', RDFS), (''xsd'', XSD), (''owl'', OWL)]"

text \<open>\<open>RDFToRDF._add_common_namespaces\<close>.\<close>

definition add_common_namespaces :: "config \<Rightarrow> nat \<Rightarrow> store \<Rightarrow> store" where
  "add_common_namespaces cfg g st =
     (let st1 = fold (\<lambda>(prefix, ns) s. graph_bind g prefix ns s) common_namespaces st
      in case cfg_namespaces cfg of
           None \<Rightarrow> st1
         | Some nss \<Rightarrow> fold (\<lambda>(prefix, uri) s. graph_bind g prefix uri s) nss st1)"


text \<open>
  \<open>RDFToRDF.filter_graph\<close>. A filter that is \<open>None\<close> or an empty list is false in the
  test \<open>if predicate_filter and ...\<close>, so it excludes nothing.
\<close>

definition filter_graph ::
  "config \<Rightarrow> store \<Rightarrow> nat \<Rightarrow> string list option \<Rightarrow> string list option \<Rightarrow> string list option
   \<Rightarrow> store \<times> nat" where
  "filter_graph cfg st graph predicate_filter subject_filter object_filter =
     (let (st1, filtered_graph) = Graph_new st;
          st2 = add_common_namespaces cfg filtered_graph st1;
          st3 =
            fold (\<lambda>(subject, predicate, obj) s.
                    (let include = True;
                         include =
                           (case predicate_filter of
                              Some l \<Rightarrow>
                                if l \<noteq> [] \<and> str_of predicate \<notin> set l then False else include
                            | None \<Rightarrow> include);
                         include =
                           (case subject_filter of
                              Some l \<Rightarrow>
                                if l \<noteq> [] \<and> str_of subject \<notin> set l then False else include
                            | None \<Rightarrow> include);
                         include =
                           (case object_filter of
                              Some l \<Rightarrow>
                                if l \<noteq> [] \<and> str_of obj \<notin> set l then False else include
                            | None \<Rightarrow> include)
                     in if include then graph_add filtered_graph (subject, predicate, obj) s
                        else s))
              (triples (st2 ! graph)) st2
      in (st3, filtered_graph))"

text \<open>
  \<open>RDFToRDF.validate_graph\<close>. The dictionary \<open>stats\<close> holds three sets while the triples
  are counted and their sizes afterwards; the counting state and the returned
  statistics are two records. Iterating a graph of the store raises nothing, so the
  list of errors stays empty.
\<close>

record counting =
  subjects :: "rdf_term set"
  predicates :: "rdf_term set"
  objects :: "rdf_term set"
  count_blank_nodes :: nat
  count_literals :: nat
  count_uris :: nat

record statistics =
  total_triples :: nat
  stats_namespaces :: "(string \<times> string) list"
  blank_nodes :: nat
  literals :: nat
  uris :: nat
  errors :: "string list"
  unique_subjects :: nat
  unique_predicates :: nat
  unique_objects :: nat

definition count_triple :: "triple \<Rightarrow> counting \<Rightarrow> counting" where
  "count_triple = (\<lambda>(subject, predicate, obj) stats.
     (let stats = stats\<lparr>subjects := insert subject (subjects stats)\<rparr>;
          stats = stats\<lparr>predicates := insert predicate (predicates stats)\<rparr>;
          stats = stats\<lparr>objects := insert obj (objects stats)\<rparr>;
          stats =
            (if is_BNode subject then stats\<lparr>count_blank_nodes := count_blank_nodes stats + 1\<rparr>
             else if is_URIRef subject then stats\<lparr>count_uris := count_uris stats + 1\<rparr>
             else stats);
          stats =
            (if is_Literal obj then stats\<lparr>count_literals := count_literals stats + 1\<rparr>
             else if is_URIRef obj then stats\<lparr>count_uris := count_uris stats + 1\<rparr>
             else if is_BNode obj then stats\<lparr>count_blank_nodes := count_blank_nodes stats + 1\<rparr>
             else stats)
      in stats))"

definition validate_graph :: "graph \<Rightarrow> statistics" where
  "validate_graph g =
     (let stats =
        fold count_triple (triples g)
          \<lparr>subjects = {}, predicates = {}, objects = {},
           count_blank_nodes = 0, count_literals = 0, count_uris = 0\<rparr>
      in \<lparr>total_triples = graph_len g,
          stats_namespaces = namespaces g,
          blank_nodes = count_blank_nodes stats,
          literals = count_literals stats,
          uris = count_uris stats,
          errors = [],
          unique_subjects = card (subjects stats),
          unique_predicates = card (predicates stats),
          unique_objects = card (objects stats)\<rparr>)"

text \<open>The terms of the schema vocabulary that \<open>extract_schema\<close> compares with.\<close>

definition RDF_type :: rdf_term where "RDF_type = URIRef (RDF @ ''type'')"
definition RDF_Property :: rdf_term where "RDF_Property = URIRef (RDF @ ''Property'')"
definition RDFS_Class :: rdf_term where "RDFS_Class = URIRef (RDFS @ ''Class'')"
definition RDFS_subClassOf :: rdf_term where "RDFS_subClassOf = URIRef (RDFS @ ''subClassOf'')"
definition RDFS_domain :: rdf_term where "RDFS_domain = URIRef (RDFS @ ''domain'')"
definition RDFS_range :: rdf_term where "RDFS_range = URIRef (RDFS @ ''range'')"
definition RDFS_subPropertyOf :: rdf_term where
  "RDFS_subPropertyOf = URIRef (RDFS @ ''subPropertyOf'')"
definition OWL_Class :: rdf_term where "OWL_Class = URIRef (OWL @ ''Class'')"
definition OWL_equivalentClass :: rdf_term where
  "OWL_equivalentClass = URIRef (OWL @ ''equivalentClass'')"
definition OWL_ObjectProperty :: rdf_term where
  "OWL_ObjectProperty = URIRef (OWL @ ''ObjectProperty'')"
definition OWL_DatatypeProperty :: rdf_term where
  "OWL_DatatypeProperty = URIRef (OWL @ ''DatatypeProperty'')"
definition OWL_AnnotationProperty :: rdf_term where
  "OWL_AnnotationProperty = URIRef (OWL @ ''AnnotationProperty'')"

text \<open>\<open>RDFToRDF.extract_schema\<close>.\<close>

definition extract_schema :: "config \<Rightarrow> store \<Rightarrow> nat \<Rightarrow> store \<times> nat" where
  "extract_schema cfg st graph =
     (let (st1, schema_graph) = Graph_new st;
          st2 = add_common_namespaces cfg schema_graph st1;
          st3 =
            fold (\<lambda>(subject, predicate, obj) s.
                    if predicate = RDF_type \<and> obj \<in> set [RDFS_Class, OWL_Class]
                    then graph_add schema_graph (subject, predicate, obj) s
                    else if predicate \<in> set [RDFS_subClassOf, OWL_equivalentClass]
                    then graph_add schema_graph (subject, predicate, obj) s
                    else if predicate = RDF_type
                         \<and> obj \<in> set [RDF_Property, OWL_ObjectProperty,
                                       OWL_DatatypeProperty, OWL_AnnotationProperty]
                    then graph_add schema_graph (subject, predicate, obj) s
                    else if predicate \<in> set [RDFS_domain, RDFS_range, RDFS_subPropertyOf]
                    then graph_add schema_graph (subject, predicate, obj) s
                    else s)
              (triples (st2 ! graph)) st2
      in (st3, schema_graph))"

section \<open>Exceptions and dictionaries\<close>

text \<open>
  An exception is a value: its class, as far as the handlers of the program tell
  classes apart, and its message, the text that \<open>str\<close> gives. A function that can raise
  returns a sum, the exception on the left.
\<close>

datatype exn =
  RDFParsingError string
  | RequestException string
  | UnboundLocalError string
  | OtherException string


fun is_RequestException :: "exn \<Rightarrow> bool" where
  "is_RequestException (RequestException m) = True"
| "is_RequestException e = False"


section \<open>SPARQL processor\<close>

text \<open>\<open>SPARQLProcessor.default_prefixes\<close>, set by the constructor.\<close>

definition default_prefixes :: "(string \<times> string) list" where
  "default_prefixes =
     [(''rdf'', ''http://www.w3.org/1999/02/22-rdf-syntax-ns#''),
      (''rdfs'', ''http://www.w3.org/2000/01/rdf-schema#''),
      (''xsd'', ''http://www.w3.org/2001/XMLSchema#''),
      (''owl'', ''http://www.w3.org/2002/07/owl#''),
      (''foaf'', ''http://xmlns.com/foaf/0.1/''),
      (''dc'', ''http://purl.org/dc/elements/1.1/''),
      (''dcterms'', ''http://purl.org/dc/terms/''),
      (''skos'', ''http://www.w3.org/2004/02/skos/core#''),
      (''ex'', ''http://example.org/'')]"

text \<open>The two formatted strings of \<open>_add_default_prefixes\<close>: the pattern
  \<open>f"PREFIX {prefix.upper()}:"\<close> and the declaration \<open>f"PREFIX {prefix}: <{uri}>"\<close>.\<close>

definition prefix_pattern :: "string \<Rightarrow> nat list" where
  "prefix_pattern prefix = codes ''PREFIX '' @ upper prefix @ codes '':''"

definition prefix_declaration :: "string \<Rightarrow> string \<Rightarrow> string" where
  "prefix_declaration prefix uri = ''PREFIX '' @ prefix @ '': <'' @ uri @ ''>''"

text \<open>One turn of either loop of \<open>_add_default_prefixes\<close>.\<close>

definition add_missing_prefix ::
  "nat list \<Rightarrow> string \<times> string \<Rightarrow> string list \<Rightarrow> string list" where
  "add_missing_prefix query_upper = (\<lambda>(prefix, uri) prefix_declarations.
     if \<not> contains query_upper (prefix_pattern prefix)
     then prefix_declarations @ [prefix_declaration prefix uri]
     else prefix_declarations)"

text \<open>\<open>SPARQLProcessor._add_default_prefixes\<close>.\<close>

definition add_default_prefixes :: "config \<Rightarrow> string \<Rightarrow> string" where
  "add_default_prefixes cfg sparql_query =
     (let query_upper = upper sparql_query;
          prefix_declarations = [];
          prefix_declarations =
            fold (add_missing_prefix query_upper) default_prefixes prefix_declarations;
          prefix_declarations =
            (case cfg_prefixes cfg of
               None \<Rightarrow> prefix_declarations
             | Some custom \<Rightarrow> fold (add_missing_prefix query_upper) custom prefix_declarations)
      in if prefix_declarations \<noteq> []
         then join [CHR 0x0A] prefix_declarations @ [CHR 0x0A, CHR 0x0A] @ sparql_query
         else sparql_query)"

text \<open>\<open>SPARQLProcessor._prepare_query\<close>. The preparation of a query is the library's:
  it returns a prepared query or raises.\<close>

definition prepare_query :: "(string \<Rightarrow> exn + 'q) \<Rightarrow> config \<Rightarrow> string \<Rightarrow> exn + 'q" where
  "prepare_query prepareQuery cfg sparql_query =
     (let full_query = add_default_prefixes cfg sparql_query
      in prepareQuery full_query)"

text \<open>\<open>SPARQLProcessor._get_query_type\<close>.\<close>

definition get_query_type :: "string \<Rightarrow> string" where
  "get_query_type sparql_query =
     (let query_upper = strip_codes (upper sparql_query)
      in if startswith query_upper (codes ''SELECT'') then ''SELECT''
         else if startswith query_upper (codes ''CONSTRUCT'') then ''CONSTRUCT''
         else if startswith query_upper (codes ''ASK'') then ''ASK''
         else if startswith query_upper (codes ''DESCRIBE'') then ''DESCRIBE''
         else ''UNKNOWN'')"





section \<open>Properties of the string operations\<close>

lemma split_on_not_Nil: "split_on c s \<noteq> []"
  by (induction s) (auto split: list.splits)

lemma split_on_append_sep: "c \<notin> set m \<Longrightarrow> split_on c (m @ c # p) = m # split_on c p"
  by (induction m) auto

lemma first_field_append_sep: "c \<notin> set m \<Longrightarrow> first_field c (m @ c # p) = m"
  by (simp add: first_field_def split_on_append_sep)

lemma strip_id:
  assumes "m \<noteq> []" "\<not> is_space (hd m)" "\<not> is_space (last m)"
  shows "strip m = m"
proof -
  from assms have l: "dropWhile is_space m = m"
    by (cases m) auto
  from assms have "dropWhile is_space (rev m) = rev m"
    by (cases "rev m") (auto simp: last_rev hd_rev)
  with l show ?thesis
    by (simp add: strip_def lstrip_def rstrip_def)
qed

lemma split_on_append_nosep:
  "c \<notin> set e \<Longrightarrow>
   split_on c (s @ e) = butlast (split_on c s) @ [last (split_on c s) @ e]"
proof (induction s)
  case Nil
  then show ?case
    by (induction e) (auto split: list.splits)
next
  case (Cons x s)
  then show ?case
    using split_on_not_Nil [of c s] split_on_not_Nil [of c "s @ e"]
    by (auto split: list.splits simp: butlast_append)
qed

lemma last_split_on_not_Nil: "s \<noteq> [] \<Longrightarrow> last s \<noteq> c \<Longrightarrow> last (split_on c s) \<noteq> []"
proof (induction s)
  case Nil
  then show ?case by simp
next
  case (Cons x s)
  then show ?case
    using split_on_not_Nil [of c s]
    by (cases "s = []") (auto split: list.splits if_splits)
qed

lemma filter_keep_not_Nil: "xs \<noteq> [] \<Longrightarrow> P (last xs) \<Longrightarrow> filter P xs \<noteq> []"
  using last_in_set [of xs] by (auto simp: filter_empty_conv)

lemma last_filter_keep: "xs \<noteq> [] \<Longrightarrow> P (last xs) \<Longrightarrow> last (filter P xs) = last xs"
proof (induction xs)
  case Nil
  then show ?case by simp
next
  case (Cons a xs)
  show ?case
  proof (cases "xs = []")
    case True
    with Cons.prems show ?thesis by simp
  next
    case False
    with Cons have "last (filter P xs) = last xs" and "filter P xs \<noteq> []"
      by (auto simp: filter_keep_not_Nil)
    with False show ?thesis by simp
  qed
qed

lemma rfind_from_absent: "c \<notin> set r \<Longrightarrow> rfind_from c i found r = found"
  by (induction r arbitrary: i) auto

lemma rfind_from_last: "c \<notin> set r \<Longrightarrow> rfind_from c i found (w @ c # r) = i + int (length w)"
  by (induction w arbitrary: i found) (auto simp: rfind_from_absent)

lemma rfind_last: "c \<notin> set r \<Longrightarrow> rfind c (w @ c # r) = int (length w)"
  by (simp add: rfind_def rfind_from_last)

section \<open>Format detection\<close>

lemma path_name_append:
  assumes "stem \<noteq> []" "last stem \<noteq> CHR ''/''" "CHR ''/'' \<notin> set e" "e \<noteq> []"
  shows "path_name (stem @ e) = last (split_on CHR ''/'' stem) @ e"
proof -
  let ?w = "last (split_on CHR ''/'' stem)"
  let ?xs = "butlast (split_on CHR ''/'' stem) @ [?w @ e]"
  let ?P = "\<lambda>x. x \<noteq> [] \<and> x \<noteq> ''.''"
  have w: "?w \<noteq> []" using assms by (simp add: last_split_on_not_Nil)
  have sp: "split_on CHR ''/'' (stem @ e) = ?xs"
    using assms by (simp add: split_on_append_nosep)
  have two: "2 \<le> length (?w @ e)" using w assms(4)
    by (cases ?w; cases e) auto
  have "?w @ e \<noteq> ''.''"
  proof
    assume a: "?w @ e = ''.''"
    have "length (?w @ e) = 1" unfolding a by simp
    with two show False by simp
  qed
  then have P: "?P (last ?xs)" using w by simp
  have ne: "?xs \<noteq> []" by simp
  from last_filter_keep [OF ne, of ?P] P have l: "last (filter ?P ?xs) = ?w @ e" by simp
  from filter_keep_not_Nil [OF ne, of ?P] P have "filter ?P ?xs \<noteq> []" by simp
  then obtain p ps where pps: "filter ?P ?xs = p # ps" by (cases "filter ?P ?xs") auto
  show ?thesis
    unfolding path_name_def sp using pps l by simp
qed

lemma path_suffix_append:
  assumes "stem \<noteq> []" "last stem \<noteq> CHR ''/''" "CHR ''/'' \<notin> set r" "CHR ''.'' \<notin> set r" "r \<noteq> []"
  shows "path_suffix (stem @ CHR ''.'' # r) = CHR ''.'' # r"
proof -
  let ?w = "last (split_on CHR ''/'' stem)"
  have w: "?w \<noteq> []" using assms by (simp add: last_split_on_not_Nil)
  have n: "path_name (stem @ CHR ''.'' # r) = ?w @ CHR ''.'' # r"
    using assms by (intro path_name_append) auto
  have i: "rfind CHR ''.'' (?w @ CHR ''.'' # r) = int (length ?w)"
    using assms by (simp add: rfind_last)
  show ?thesis
    using w assms(5) by (simp add: path_suffix_def Let_def n i)
qed

lemma lower_char_id: "c \<notin> set upper_letters \<Longrightarrow> lower_char c = c"
proof -
  assume "c \<notin> set upper_letters"
  moreover have "length upper_letters = length lower_letters"
    by (simp add: upper_letters_def lower_letters_def)
  ultimately have "map_of (zip upper_letters lower_letters) c = None"
    by (simp add: map_of_zip_is_None)
  then show ?thesis by (simp add: lower_char_def)
qed

lemma lower_id: "set s \<inter> set upper_letters = {} \<Longrightarrow> lower s = s"
  unfolding lower_def by (induction s) (simp_all add: lower_char_id)

lemma extension_table_plain:
  "\<forall>(e, f) \<in> set EXTENSION_MAPPING.
     (\<exists>r. e = CHR ''.'' # r \<and> r \<noteq> [] \<and> CHR ''/'' \<notin> set r \<and> CHR ''.'' \<notin> set r)
     \<and> map_of EXTENSION_MAPPING (lower e) = Some f"
  by (simp add: EXTENSION_MAPPING_def lower_id upper_letters_def)

lemma detect_format_extension:
  assumes "(e, f) \<in> set EXTENSION_MAPPING" "stem \<noteq> []" "last stem \<noteq> CHR ''/''"
  shows "detect_format (stem @ e) None = f"
proof -
  from assms(1) extension_table_plain
  have "\<exists>r. e = CHR ''.'' # r \<and> r \<noteq> [] \<and> CHR ''/'' \<notin> set r \<and> CHR ''.'' \<notin> set r"
    and m: "map_of EXTENSION_MAPPING (lower e) = Some f"
    by auto
  then obtain r where e: "e = CHR ''.'' # r"
    and r: "r \<noteq> []" "CHR ''/'' \<notin> set r" "CHR ''.'' \<notin> set r"
    by auto
  have "path_suffix (stem @ e) = e"
    unfolding e using assms(2,3) r by (simp add: path_suffix_append)
  then show ?thesis
    using m by (simp add: detect_format_def)
qed

lemma mime_table_plain:
  "\<forall>(m, f) \<in> set MIME_TYPE_MAPPING.
     (m \<noteq> [] \<and> CHR '';'' \<notin> set m \<and> \<not> is_space (hd m) \<and> \<not> is_space (last m))
     \<and> map_of MIME_TYPE_MAPPING m = Some f"
  by (simp add: MIME_TYPE_MAPPING_def is_space_def)

lemma detect_format_mime:
  assumes "(m, f) \<in> set MIME_TYPE_MAPPING"
  shows "detect_format source (Some m) = f"
    and "detect_format source (Some (m @ '';'' @ params)) = f"
proof -
  from assms mime_table_plain
  have pl: "m \<noteq> []" "CHR '';'' \<notin> set m" "\<not> is_space (hd m)" "\<not> is_space (last m)"
    and mm: "map_of MIME_TYPE_MAPPING m = Some f"
    by auto
  from pl mm show "detect_format source (Some m) = f"
    by (simp add: detect_format_def)
  from pl have "strip (first_field CHR '';'' (m @ '';'' @ params)) = m"
    by (simp add: first_field_append_sep strip_id)
  with pl mm show "detect_format source (Some (m @ '';'' @ params)) = f"
    by (simp add: detect_format_def)
qed

text \<open>
  Claim C4. For every extension of the extension table, \<open>detect_format\<close> on a file name
  that ends in that extension (after a stem that is not empty and does not end in a
  slash) and with no content type returns the mapped format. For every MIME type of the
  MIME table, \<open>detect_format\<close> returns the mapped format, with any source, both for the
  bare MIME type and for the MIME type followed by a semicolon and any parameter text
  such as \<open>; charset=utf-8\<close>. For a source whose extension is not in the extension
  table and no content type, \<open>detect_format\<close> returns RDF/XML.
\<close>

theorem detect_format_tables:
  "(\<forall>(e, f) \<in> set EXTENSION_MAPPING. \<forall>stem.
      stem \<noteq> [] \<and> last stem \<noteq> CHR ''/'' \<longrightarrow> detect_format (stem @ e) None = f)
   \<and> (\<forall>(m, f) \<in> set MIME_TYPE_MAPPING. \<forall>source params.
      detect_format source (Some m) = f
      \<and> detect_format source (Some (m @ '';'' @ params)) = f)
   \<and> (\<forall>source. map_of EXTENSION_MAPPING (lower (path_suffix source)) = None
      \<longrightarrow> detect_format source None = RDF_XML)"
proof (intro conjI)
  show "\<forall>(e, f) \<in> set EXTENSION_MAPPING. \<forall>stem.
      stem \<noteq> [] \<and> last stem \<noteq> CHR ''/'' \<longrightarrow> detect_format (stem @ e) None = f"
    using detect_format_extension by blast
  show "\<forall>(m, f) \<in> set MIME_TYPE_MAPPING. \<forall>source params.
      detect_format source (Some m) = f
      \<and> detect_format source (Some (m @ '';'' @ params)) = f"
    using detect_format_mime by blast
  show "\<forall>source. map_of EXTENSION_MAPPING (lower (path_suffix source)) = None
      \<longrightarrow> detect_format source None = RDF_XML"
    by (simp add: detect_format_def)
qed

theorem detect_format_tables_witness:
  "(''.ttl'', TURTLE) \<in> set EXTENSION_MAPPING
   \<and> detect_format ''file.ttl'' None = TURTLE
   \<and> (''text/turtle'', TURTLE) \<in> set MIME_TYPE_MAPPING
   \<and> detect_format ''unknown.file'' (Some ''text/turtle'') = TURTLE
   \<and> detect_format ''unknown.file'' (Some ''text/turtle; charset=utf-8'') = TURTLE
   \<and> map_of EXTENSION_MAPPING (lower (path_suffix ''unknown.file'')) = None
   \<and> detect_format ''unknown.file'' None = RDF_XML"
proof -
  have e: "(''.ttl'', TURTLE) \<in> set EXTENSION_MAPPING"
    by (simp add: EXTENSION_MAPPING_def)
  have m: "(''text/turtle'', TURTLE) \<in> set MIME_TYPE_MAPPING"
    by (simp add: MIME_TYPE_MAPPING_def)
  have u: "map_of EXTENSION_MAPPING (lower (path_suffix ''unknown.file'')) = None"
    by (simp add: EXTENSION_MAPPING_def lower_id upper_letters_def
        path_suffix_def path_name_def rfind_def)
  note t = detect_format_tables
  have a: "\<forall>stem. stem \<noteq> [] \<and> last stem \<noteq> CHR ''/''
      \<longrightarrow> detect_format (stem @ ''.ttl'') None = TURTLE"
    using bspec [OF t [THEN conjunct1] e] by simp
  have 1: "detect_format (''file'' @ ''.ttl'') None = TURTLE"
    using spec [OF a, of "''file''"] by simp
  have b: "\<forall>source params. detect_format source (Some ''text/turtle'') = TURTLE
      \<and> detect_format source (Some (''text/turtle'' @ '';'' @ params)) = TURTLE"
    using bspec [OF t [THEN conjunct2, THEN conjunct1] m] by simp
  have 2: "detect_format ''unknown.file'' (Some ''text/turtle'') = TURTLE
    \<and> detect_format ''unknown.file'' (Some (''text/turtle'' @ '';'' @ '' charset=utf-8'')) = TURTLE"
    using spec [OF spec [OF b, of "''unknown.file''"], of "'' charset=utf-8''"] by simp
  have 3: "detect_format ''unknown.file'' None = RDF_XML"
    using spec [OF t [THEN conjunct2, THEN conjunct2], of "''unknown.file''"] u by simp
  show ?thesis
    using e m u 1 2 3 by simp
qed

text \<open>
  Claim C8. A content type that is given (not empty) but has no entry in the MIME
  table, after the cut at the first semicolon, does not make \<open>detect_format\<close> return
  the default at once: the result is the one of the extension lookup on the source,
  the same as with no content type at all, and it is RDF/XML only when the extension
  table has no entry for the extension of the source.
\<close>

theorem detect_format_unknown_content_type:
  assumes "ct \<noteq> []"
    and "map_of MIME_TYPE_MAPPING
           (if CHR '';'' \<in> set ct then strip (first_field CHR '';'' ct) else ct) = None"
  shows "detect_format source (Some ct) = detect_format source None
    \<and> detect_format source (Some ct) =
           (case map_of EXTENSION_MAPPING (lower (path_suffix source)) of
              Some f \<Rightarrow> f | None \<Rightarrow> RDF_XML)"
  using assms by (simp add: detect_format_def)

theorem detect_format_unknown_content_type_witness:
  "''text/html'' \<noteq> []
   \<and> map_of MIME_TYPE_MAPPING
        (if CHR '';'' \<in> set ''text/html'' then strip (first_field CHR '';'' ''text/html'')
         else ''text/html'') = None
   \<and> detect_format ''data.ttl'' (Some ''text/html'') = TURTLE
   \<and> detect_format ''data.ttl'' (Some ''text/html'') \<noteq> RDF_XML"
proof -
  have a: "''text/html'' \<noteq> []" by simp
  have b: "map_of MIME_TYPE_MAPPING
        (if CHR '';'' \<in> set ''text/html'' then strip (first_field CHR '';'' ''text/html'')
         else ''text/html'') = None"
    by (simp add: MIME_TYPE_MAPPING_def)
  have c: "(case map_of EXTENSION_MAPPING (lower (path_suffix ''data.ttl'')) of
              Some f \<Rightarrow> f | None \<Rightarrow> RDF_XML) = TURTLE"
    by (simp add: EXTENSION_MAPPING_def lower_id upper_letters_def
        path_suffix_def path_name_def rfind_def)
  from detect_format_unknown_content_type [OF a b, of "''data.ttl''", THEN conjunct2] c
  have "detect_format ''data.ttl'' (Some ''text/html'') = TURTLE" by simp
  with a b show ?thesis by simp
qed

section \<open>Properties of the graph operations\<close>


lemma length_graph_add [simp]: "length (graph_add g t st) = length st"
  by (simp add: graph_add_def)

lemma length_graph_bind [simp]: "length (graph_bind g p u st) = length st"
  by (simp add: graph_bind_def)

lemma graph_add_other [simp]: "i \<noteq> g \<Longrightarrow> graph_add g t st ! i = st ! i"
  by (simp add: graph_add_def)

lemma graph_bind_other [simp]: "i \<noteq> g \<Longrightarrow> graph_bind g p u st ! i = st ! i"
  by (simp add: graph_bind_def)

lemma graph_add_same: "g < length st \<Longrightarrow> graph_add g t st ! g = add_triple t (st ! g)"
  by (simp add: graph_add_def)

lemma graph_bind_same: "g < length st \<Longrightarrow> graph_bind g p u st ! g = bind_prefix p u (st ! g)"
  by (simp add: graph_bind_def)

lemma triples_bind_prefix [simp]: "triples (bind_prefix p u g) = triples g"
  by (simp add: bind_prefix_def)

lemma namespaces_add_triple [simp]: "namespaces (add_triple t g) = namespaces g"
  by (simp add: add_triple_def)

lemma set_triples_add_triple [simp]: "set (triples (add_triple t g)) = insert t (set (triples g))"
  by (auto simp: add_triple_def)

lemma distinct_add_triple [simp]:
  "distinct (triples g) \<Longrightarrow> distinct (triples (add_triple t g))"
  by (simp add: add_triple_def)

lemma triples_graph_bind [simp]: "triples (graph_bind g p u st ! i) = triples (st ! i)"
  by (cases "i = g"; cases "g < length st") (simp_all add: graph_bind_def list_update_beyond)

lemma fold_bind_length [simp]:
  "length (fold (\<lambda>(p, u) s. graph_bind g p u s) nss st) = length st"
  by (induction nss arbitrary: st) auto

lemma fold_bind_other [simp]:
  "i \<noteq> g \<Longrightarrow> fold (\<lambda>(p, u) s. graph_bind g p u s) nss st ! i = st ! i"
  by (induction nss arbitrary: st) auto

lemma fold_bind_triples [simp]:
  "triples (fold (\<lambda>(p, u) s. graph_bind g p u s) nss st ! i) = triples (st ! i)"
  by (induction nss arbitrary: st) auto

lemma length_add_common_namespaces [simp]:
  "length (add_common_namespaces cfg g st) = length st"
  by (simp add: add_common_namespaces_def Let_def split: option.splits)

lemma add_common_namespaces_other [simp]:
  "i \<noteq> g \<Longrightarrow> add_common_namespaces cfg g st ! i = st ! i"
  by (simp add: add_common_namespaces_def Let_def split: option.splits)

lemma triples_add_common_namespaces [simp]:
  "triples (add_common_namespaces cfg g st ! i) = triples (st ! i)"
  by (simp add: add_common_namespaces_def Let_def split: option.splits)

text \<open>Adding the selected triples of a list to one graph of the store.\<close>

lemma fold_add_length [simp]:
  "length (fold (\<lambda>t s. if P t then graph_add g t s else s) xs st) = length st"
  by (induction xs arbitrary: st) auto

lemma fold_add_other [simp]:
  "i \<noteq> g \<Longrightarrow> fold (\<lambda>t s. if P t then graph_add g t s else s) xs st ! i = st ! i"
  by (induction xs arbitrary: st) auto

lemma fold_add_set:
  "g < length st \<Longrightarrow>
   set (triples (fold (\<lambda>t s. if P t then graph_add g t s else s) xs st ! g)) =
     set (triples (st ! g)) \<union> {t \<in> set xs. P t}"
  by (induction xs arbitrary: st) (auto simp: graph_add_same)

lemma fold_add_distinct:
  "g < length st \<Longrightarrow> distinct (triples (st ! g)) \<Longrightarrow>
   distinct (triples (fold (\<lambda>t s. if P t then graph_add g t s else s) xs st ! g))"
  by (induction xs arbitrary: st) (auto simp: graph_add_same)

lemma fold_add_namespaces:
  "g < length st \<Longrightarrow>
   namespaces (fold (\<lambda>t s. if P t then graph_add g t s else s) xs st ! g) = namespaces (st ! g)"
  by (induction xs arbitrary: st) (auto simp: graph_add_same)


lemma Graph_new_nth_old: "i < length st \<Longrightarrow> fst (Graph_new st) ! i = st ! i"
  by (simp add: Graph_new_def nth_append)

lemma filter_graph_loop:
  "filter_graph cfg st graph predicate_filter subject_filter object_filter =
     (let st2 = add_common_namespaces cfg (length st) (st @ [empty_graph])
      in (fold (\<lambda>t s.
                 if (case t of (subject, predicate, obj) \<Rightarrow>
                      (\<forall>l. predicate_filter = Some l \<and> l \<noteq> [] \<longrightarrow> str_of predicate \<in> set l)
                      \<and> (\<forall>l. subject_filter = Some l \<and> l \<noteq> [] \<longrightarrow> str_of subject \<in> set l)
                      \<and> (\<forall>l. object_filter = Some l \<and> l \<noteq> [] \<longrightarrow> str_of obj \<in> set l))
                 then graph_add (length st) t s else s)
            (triples (st2 ! graph)) st2,
          length st))"
proof -
  have body:
    "(\<lambda>(subject, predicate, obj) s.
        (let include = True;
             include =
               (case predicate_filter of
                  Some l \<Rightarrow> if l \<noteq> [] \<and> str_of predicate \<notin> set l then False else include
                | None \<Rightarrow> include);
             include =
               (case subject_filter of
                  Some l \<Rightarrow> if l \<noteq> [] \<and> str_of subject \<notin> set l then False else include
                | None \<Rightarrow> include);
             include =
               (case object_filter of
                  Some l \<Rightarrow> if l \<noteq> [] \<and> str_of obj \<notin> set l then False else include
                | None \<Rightarrow> include)
         in if include then graph_add (length st) (subject, predicate, obj) s else s)) =
     (\<lambda>t s.
        if (case t of (subject, predicate, obj) \<Rightarrow>
             (\<forall>l. predicate_filter = Some l \<and> l \<noteq> [] \<longrightarrow> str_of predicate \<in> set l)
             \<and> (\<forall>l. subject_filter = Some l \<and> l \<noteq> [] \<longrightarrow> str_of subject \<in> set l)
             \<and> (\<forall>l. object_filter = Some l \<and> l \<noteq> [] \<longrightarrow> str_of obj \<in> set l))
        then graph_add (length st) t s else s)"
    by (intro ext) (auto simp: Let_def split: option.splits if_splits)
  show ?thesis
    using body unfolding filter_graph_def Graph_new_def
    by (simp add: Let_def)
qed

lemma filter_graph_result:
  assumes "graph < length st"
  shows "set (triples (fst (filter_graph cfg st graph predicate_filter subject_filter object_filter)
                 ! snd (filter_graph cfg st graph predicate_filter subject_filter object_filter))) =
     {(subject, predicate, obj) \<in> set (triples (st ! graph)).
        (\<forall>l. predicate_filter = Some l \<and> l \<noteq> [] \<longrightarrow> str_of predicate \<in> set l)
        \<and> (\<forall>l. subject_filter = Some l \<and> l \<noteq> [] \<longrightarrow> str_of subject \<in> set l)
        \<and> (\<forall>l. object_filter = Some l \<and> l \<noteq> [] \<longrightarrow> str_of obj \<in> set l)}"
proof -
  let ?st2 = "add_common_namespaces cfg (length st) (st @ [empty_graph])"
  let ?keep = "\<lambda>t. case t of (subject, predicate, obj) \<Rightarrow>
        (\<forall>l. predicate_filter = Some l \<and> l \<noteq> [] \<longrightarrow> str_of predicate \<in> set l)
        \<and> (\<forall>l. subject_filter = Some l \<and> l \<noteq> [] \<longrightarrow> str_of subject \<in> set l)
        \<and> (\<forall>l. object_filter = Some l \<and> l \<noteq> [] \<longrightarrow> str_of obj \<in> set l)"
  let ?res = "filter_graph cfg st graph predicate_filter subject_filter object_filter"
  have len: "length st < length ?st2" by simp
  have rd: "triples (?st2 ! graph) = triples (st ! graph)"
    using assms by (simp add: nth_append)
  have new: "triples (?st2 ! length st) = []"
    by (simp add: empty_graph_def)
  have res: "?res =
      (fold (\<lambda>t s. if ?keep t then graph_add (length st) t s else s) (triples (st ! graph)) ?st2,
       length st)"
    unfolding filter_graph_loop Let_def rd ..
  have "set (triples (fst ?res ! snd ?res)) =
      set (triples (?st2 ! length st)) \<union> {t \<in> set (triples (st ! graph)). ?keep t}"
    unfolding res fst_conv snd_conv by (rule fold_add_set [OF len])
  also have "\<dots> = {t \<in> set (triples (st ! graph)). ?keep t}"
    unfolding new by simp
  finally show ?thesis by (simp add: case_prod_unfold)
qed

lemma filter_graph_frame:
  "snd (filter_graph cfg st graph pf sf ofl) = length st"
  "length (fst (filter_graph cfg st graph pf sf ofl)) = Suc (length st)"
  "i < length st \<Longrightarrow> fst (filter_graph cfg st graph pf sf ofl) ! i = st ! i"
  unfolding filter_graph_loop Let_def by (simp_all add: nth_append)

lemma extract_schema_loop:
  "extract_schema cfg st graph =
     (let st2 = add_common_namespaces cfg (length st) (st @ [empty_graph])
      in (fold (\<lambda>t s.
                 if (case t of (subject, predicate, obj) \<Rightarrow>
                      (predicate = RDF_type \<and> obj \<in> set [RDFS_Class, OWL_Class])
                      \<or> predicate \<in> set [RDFS_subClassOf, OWL_equivalentClass]
                      \<or> (predicate = RDF_type
                          \<and> obj \<in> set [RDF_Property, OWL_ObjectProperty,
                                        OWL_DatatypeProperty, OWL_AnnotationProperty])
                      \<or> predicate \<in> set [RDFS_domain, RDFS_range, RDFS_subPropertyOf])
                 then graph_add (length st) t s else s)
            (triples (st2 ! graph)) st2,
          length st))"
proof -
  have body:
    "(\<lambda>(subject, predicate, obj) s.
        if predicate = RDF_type \<and> obj \<in> set [RDFS_Class, OWL_Class]
        then graph_add (length st) (subject, predicate, obj) s
        else if predicate \<in> set [RDFS_subClassOf, OWL_equivalentClass]
        then graph_add (length st) (subject, predicate, obj) s
        else if predicate = RDF_type
             \<and> obj \<in> set [RDF_Property, OWL_ObjectProperty,
                           OWL_DatatypeProperty, OWL_AnnotationProperty]
        then graph_add (length st) (subject, predicate, obj) s
        else if predicate \<in> set [RDFS_domain, RDFS_range, RDFS_subPropertyOf]
        then graph_add (length st) (subject, predicate, obj) s
        else s) =
     (\<lambda>t s.
        if (case t of (subject, predicate, obj) \<Rightarrow>
             (predicate = RDF_type \<and> obj \<in> set [RDFS_Class, OWL_Class])
             \<or> predicate \<in> set [RDFS_subClassOf, OWL_equivalentClass]
             \<or> (predicate = RDF_type
                 \<and> obj \<in> set [RDF_Property, OWL_ObjectProperty,
                               OWL_DatatypeProperty, OWL_AnnotationProperty])
             \<or> predicate \<in> set [RDFS_domain, RDFS_range, RDFS_subPropertyOf])
        then graph_add (length st) t s else s)"
    by (intro ext) (auto split: prod.splits if_splits)
  show ?thesis
    using body unfolding extract_schema_def Graph_new_def
    by (simp add: Let_def)
qed

lemma extract_schema_frame:
  "snd (extract_schema cfg st graph) = length st"
  "length (fst (extract_schema cfg st graph)) = Suc (length st)"
  "i < length st \<Longrightarrow> fst (extract_schema cfg st graph) ! i = st ! i"
  unfolding extract_schema_loop Let_def by (simp_all add: nth_append)


text \<open>
  Claim C6. The graph that \<open>filter_graph\<close> returns holds exactly the triples of the
  input graph whose components pass every allow-list that is given and not empty: the
  string form of the predicate, subject and object is in the list of its position. An
  allow-list that is absent or empty excludes nothing. With a predicate allow-list that
  is not empty and no other list, the result holds exactly the triples whose predicate
  string is in the list, whatever their subject and object.
\<close>

theorem filter_graph_allow_lists:
  assumes "graph < length st"
  shows "set (triples (fst (filter_graph cfg st graph predicate_filter subject_filter object_filter)
                 ! snd (filter_graph cfg st graph predicate_filter subject_filter object_filter))) =
     set (filter (\<lambda>(subject, predicate, obj).
            (\<forall>l. predicate_filter = Some l \<and> l \<noteq> [] \<longrightarrow> str_of predicate \<in> set l)
            \<and> (\<forall>l. subject_filter = Some l \<and> l \<noteq> [] \<longrightarrow> str_of subject \<in> set l)
            \<and> (\<forall>l. object_filter = Some l \<and> l \<noteq> [] \<longrightarrow> str_of obj \<in> set l))
          (triples (st ! graph)))
     \<and> (\<forall>l. l \<noteq> [] \<longrightarrow>
          set (triples (fst (filter_graph cfg st graph (Some l) None None)
                 ! snd (filter_graph cfg st graph (Some l) None None))) =
          set (filter (\<lambda>(subject, predicate, obj). str_of predicate \<in> set l)
                 (triples (st ! graph))))"
  using assms by (auto simp: filter_graph_result)

theorem filter_graph_allow_lists_witness:
  "(0::nat) < length [\<lparr>triples = [(URIRef ''a'', URIRef ''p'', Literal ''1'' None None),
                                   (URIRef ''a'', URIRef ''q'', Literal ''2'' None None)],
                        namespaces = []\<rparr>]
   \<and> set (triples (fst (filter_graph default_config
              [\<lparr>triples = [(URIRef ''a'', URIRef ''p'', Literal ''1'' None None),
                           (URIRef ''a'', URIRef ''q'', Literal ''2'' None None)],
                namespaces = []\<rparr>] 0 (Some [''p'']) None None)
         ! snd (filter_graph default_config
              [\<lparr>triples = [(URIRef ''a'', URIRef ''p'', Literal ''1'' None None),
                           (URIRef ''a'', URIRef ''q'', Literal ''2'' None None)],
                namespaces = []\<rparr>] 0 (Some [''p'']) None None)))
     = {(URIRef ''a'', URIRef ''p'', Literal ''1'' None None)}"
proof -
  let ?st = "[\<lparr>triples = [(URIRef ''a'', URIRef ''p'', Literal ''1'' None None),
                           (URIRef ''a'', URIRef ''q'', Literal ''2'' None None)],
                namespaces = []\<rparr>]"
  have h: "(0::nat) < length ?st" by simp
  have p: "[''p''] \<noteq> []" by simp
  have "set (triples (fst (filter_graph default_config ?st 0 (Some [''p'']) None None)
                 ! snd (filter_graph default_config ?st 0 (Some [''p'']) None None))) =
          set (filter (\<lambda>(subject, predicate, obj). str_of predicate \<in> set [''p''])
                 (triples (?st ! 0)))"
    using filter_graph_allow_lists [OF h, THEN conjunct2, THEN spec, THEN mp, OF p] .
  then show ?thesis by simp
qed

text \<open>
  An empty predicate allow-list is given, and the triple is kept although the string of
  its predicate is not in the list.
\<close>

theorem filter_graph_empty_list_counterexample:
  "triples (fst (filter_graph default_config
        [\<lparr>triples = [(URIRef ''s'', URIRef ''p'', URIRef ''o'')], namespaces = []\<rparr>]
        0 (Some []) None None)
      ! snd (filter_graph default_config
        [\<lparr>triples = [(URIRef ''s'', URIRef ''p'', URIRef ''o'')], namespaces = []\<rparr>]
        0 (Some []) None None))
     = [(URIRef ''s'', URIRef ''p'', URIRef ''o'')]
   \<and> str_of (URIRef ''p'') \<notin> set []"
  by (simp add: filter_graph_def Graph_new_def add_common_namespaces_def
      common_namespaces_def graph_bind_def bind_prefix_def graph_add_def add_triple_def
      empty_graph_def default_config_def Let_def)

text \<open>
  Claim C9. \<open>filter_graph\<close> and \<open>extract_schema\<close> return a reference to a new graph, the
  one at the next free index of the store, and leave every graph that was in the store
  as it was: the triples of the input graph after the call are its triples before, and
  the graph returned is not the input graph.
\<close>

theorem filter_graph_extract_schema_frame:
  "snd (filter_graph cfg st graph predicate_filter subject_filter object_filter) = length st
   \<and> take (length st)
        (fst (filter_graph cfg st graph predicate_filter subject_filter object_filter)) = st
   \<and> snd (extract_schema cfg st graph) = length st
   \<and> take (length st) (fst (extract_schema cfg st graph)) = st
   \<and> (graph < length st \<longrightarrow>
        set (triples
          (fst (filter_graph cfg st graph predicate_filter subject_filter object_filter) ! graph))
          = set (triples (st ! graph))
        \<and> snd (filter_graph cfg st graph predicate_filter subject_filter object_filter) \<noteq> graph
        \<and> set (triples (fst (extract_schema cfg st graph) ! graph)) = set (triples (st ! graph))
        \<and> snd (extract_schema cfg st graph) \<noteq> graph)"
proof -
  have f: "take (length st)
        (fst (filter_graph cfg st graph predicate_filter subject_filter object_filter)) = st"
    by (rule nth_equalityI) (simp_all add: filter_graph_frame)
  have e: "take (length st) (fst (extract_schema cfg st graph)) = st"
    by (rule nth_equalityI) (simp_all add: extract_schema_frame)
  show ?thesis
    using f e by (simp add: filter_graph_frame extract_schema_frame)
qed

theorem filter_graph_extract_schema_frame_witness:
  "(0::nat) < length [\<lparr>triples = [(URIRef ''a'', RDFS_subClassOf, URIRef ''b''),
                                   (URIRef ''a'', URIRef ''q'', Literal ''2'' None None)],
                        namespaces = []\<rparr>]
   \<and> set (triples (fst (filter_graph default_config
          [\<lparr>triples = [(URIRef ''a'', RDFS_subClassOf, URIRef ''b''),
                       (URIRef ''a'', URIRef ''q'', Literal ''2'' None None)],
            namespaces = []\<rparr>] 0 (Some [''q'']) None None) ! 0))
      = {(URIRef ''a'', RDFS_subClassOf, URIRef ''b''),
         (URIRef ''a'', URIRef ''q'', Literal ''2'' None None)}
   \<and> set (triples (fst (extract_schema default_config
          [\<lparr>triples = [(URIRef ''a'', RDFS_subClassOf, URIRef ''b''),
                       (URIRef ''a'', URIRef ''q'', Literal ''2'' None None)],
            namespaces = []\<rparr>] 0) ! 0))
      = {(URIRef ''a'', RDFS_subClassOf, URIRef ''b''),
         (URIRef ''a'', URIRef ''q'', Literal ''2'' None None)}"
proof -
  let ?st = "[\<lparr>triples = [(URIRef ''a'', RDFS_subClassOf, URIRef ''b''),
                       (URIRef ''a'', URIRef ''q'', Literal ''2'' None None)],
            namespaces = []\<rparr>]"
  have h: "(0::nat) < length ?st" by simp
  note t = filter_graph_extract_schema_frame [of default_config ?st 0 "Some [''q'']" None None]
  from t h have
    "set (triples (fst (filter_graph default_config ?st 0 (Some [''q'']) None None) ! 0))
       = set (triples (?st ! 0))
     \<and> set (triples (fst (extract_schema default_config ?st 0) ! 0)) = set (triples (?st ! 0))"
    by blast
  then show ?thesis by simp
qed


lemma fold_graph_add_if:
  "fold (graph_add g) xs st = fold (\<lambda>t s. if True then graph_add g t s else s) xs st"
  by simp

lemma fold_graph_add_length [simp]: "length (fold (graph_add g) xs st) = length st"
  by (induction xs arbitrary: st) auto

lemma fold_graph_add_other [simp]: "i \<noteq> g \<Longrightarrow> fold (graph_add g) xs st ! i = st ! i"
  by (induction xs arbitrary: st) auto





lemma merge_inner_fold:
  "fold (\<lambda>triple (s', n). (graph_add target triple s', n + (1::nat))) xs (s, n) =
     (fold (graph_add target) xs s, n + length xs)"
  by (induction xs arbitrary: s n) auto







subsection \<open>Validation statistics\<close>

lemma count_triple_fields:
  "subjects (count_triple (s, p, ob) c) = insert s (subjects c)"
  "predicates (count_triple (s, p, ob) c) = insert p (predicates c)"
  "objects (count_triple (s, p, ob) c) = insert ob (objects c)"
  "count_blank_nodes (count_triple (s, p, ob) c) =
     count_blank_nodes c + (if is_BNode s then 1 else 0) + (if is_BNode ob then 1 else 0)"
  "count_literals (count_triple (s, p, ob) c) =
     count_literals c + (if is_Literal ob then 1 else 0)"
  "count_uris (count_triple (s, p, ob) c) =
     count_uris c + (if is_URIRef s then 1 else 0) + (if is_URIRef ob then 1 else 0)"
  by (cases s; cases ob; simp add: count_triple_def Let_def)+

lemma fold_count_triple:
  "subjects (fold count_triple ts c) = subjects c \<union> (\<lambda>(s, p, ob). s) ` set ts
   \<and> predicates (fold count_triple ts c) = predicates c \<union> (\<lambda>(s, p, ob). p) ` set ts
   \<and> objects (fold count_triple ts c) = objects c \<union> (\<lambda>(s, p, ob). ob) ` set ts
   \<and> count_blank_nodes (fold count_triple ts c) =
       count_blank_nodes c + length (filter (\<lambda>(s, p, ob). is_BNode s) ts)
         + length (filter (\<lambda>(s, p, ob). is_BNode ob) ts)
   \<and> count_literals (fold count_triple ts c) =
       count_literals c + length (filter (\<lambda>(s, p, ob). is_Literal ob) ts)
   \<and> count_uris (fold count_triple ts c) =
       count_uris c + length (filter (\<lambda>(s, p, ob). is_URIRef s) ts)
         + length (filter (\<lambda>(s, p, ob). is_URIRef ob) ts)"
proof (induction ts arbitrary: c)
  case Nil
  then show ?case by simp
next
  case (Cons t ts)
  obtain s p ob where t: "t = (s, p, ob)" by (cases t) auto
  have st: "fold count_triple (t # ts) c = fold count_triple ts (count_triple (s, p, ob) c)"
    by (simp add: t)
  show ?case
    using Cons.IH [of "count_triple (s, p, ob) c"] unfolding st t
    by (simp add: count_triple_fields)
qed

text \<open>
  Claim C2. The statistics of \<open>validate_graph\<close>: \<open>total_triples\<close> is the length of the
  graph; \<open>unique_subjects\<close>, \<open>unique_predicates\<close> and \<open>unique_objects\<close> are the numbers
  of distinct terms in each position; \<open>blank_nodes\<close> counts the triples with a blank
  subject plus those with a blank object, \<open>literals\<close> the triples with a literal object,
  and \<open>uris\<close> the triples with a URI subject plus those with a URI object, each
  occurrence counted and none deduplicated. The predicate position adds to none of the
  three counts. No error is recorded.
\<close>

theorem validate_graph_statistics:
  "total_triples (validate_graph g) = graph_len g
   \<and> unique_subjects (validate_graph g) = card ((\<lambda>(s, p, ob). s) ` set (triples g))
   \<and> unique_predicates (validate_graph g) = card ((\<lambda>(s, p, ob). p) ` set (triples g))
   \<and> unique_objects (validate_graph g) = card ((\<lambda>(s, p, ob). ob) ` set (triples g))
   \<and> blank_nodes (validate_graph g) =
       length (filter (\<lambda>(s, p, ob). is_BNode s) (triples g))
         + length (filter (\<lambda>(s, p, ob). is_BNode ob) (triples g))
   \<and> literals (validate_graph g) = length (filter (\<lambda>(s, p, ob). is_Literal ob) (triples g))
   \<and> uris (validate_graph g) =
       length (filter (\<lambda>(s, p, ob). is_URIRef s) (triples g))
         + length (filter (\<lambda>(s, p, ob). is_URIRef ob) (triples g))
   \<and> errors (validate_graph g) = []"
  by (simp add: validate_graph_def Let_def fold_count_triple)

theorem validate_graph_statistics_witness:
  "total_triples (validate_graph
      \<lparr>triples = [(BNode ''b'', URIRef ''p'', Literal ''1'' None None),
                  (URIRef ''s'', URIRef ''p'', URIRef ''o'')], namespaces = []\<rparr>) = 2
   \<and> unique_predicates (validate_graph
      \<lparr>triples = [(BNode ''b'', URIRef ''p'', Literal ''1'' None None),
                  (URIRef ''s'', URIRef ''p'', URIRef ''o'')], namespaces = []\<rparr>) = 1
   \<and> uris (validate_graph
      \<lparr>triples = [(BNode ''b'', URIRef ''p'', Literal ''1'' None None),
                  (URIRef ''s'', URIRef ''p'', URIRef ''o'')], namespaces = []\<rparr>) = 2"
  using validate_graph_statistics
    [of "\<lparr>triples = [(BNode ''b'', URIRef ''p'', Literal ''1'' None None),
                  (URIRef ''s'', URIRef ''p'', URIRef ''o'')], namespaces = []\<rparr>"]
  by (simp add: graph_len_def)

text \<open>
  A triple of three URI references has three positions that hold a URI, and \<open>uris\<close> is 2:
  the predicate is not counted.
\<close>

theorem validate_graph_predicate_counterexample:
  "uris (validate_graph
      \<lparr>triples = [(URIRef ''s'', URIRef ''p'', URIRef ''o'')], namespaces = []\<rparr>) = 2
   \<and> length (filter is_URIRef [URIRef ''s'', URIRef ''p'', URIRef ''o'']) = 3"
  by (simp add: validate_graph_def count_triple_def Let_def)

section \<open>Properties of the string functions\<close>

lemma upper_append: "upper (a @ b) = upper a @ upper b"
  by (simp add: upper_def)

lemma contains_iff: "contains s p \<longleftrightarrow> (\<exists>a b. s = a @ p @ b)"
proof (induction s)
  case Nil
  then show ?case by auto
next
  case (Cons x xs)
  show ?case
  proof
    assume "contains (x # xs) p"
    then consider "take (length p) (x # xs) = p" | "contains xs p" by auto
    then show "\<exists>a b. x # xs = a @ p @ b"
    proof cases
      case 1
      have "x # xs = [] @ take (length p) (x # xs) @ drop (length p) (x # xs)"
        by simp
      with 1 show ?thesis by metis
    next
      case 2
      with Cons.IH obtain a b where "xs = a @ p @ b" by auto
      then have "x # xs = (x # a) @ p @ b" by simp
      then show ?thesis by blast
    qed
  next
    assume "\<exists>a b. x # xs = a @ p @ b"
    then obtain a b where ab: "x # xs = a @ p @ b" by auto
    show "contains (x # xs) p"
    proof (cases a)
      case Nil
      with ab have "take (length p) (x # xs) = p" by simp
      then show ?thesis by simp
    next
      case (Cons y a')
      with ab have "xs = a' @ p @ b" by simp
      with Cons.IH have "contains xs p" by blast
      then show ?thesis by simp
    qed
  qed
qed

lemma contains_upper:
  assumes "contains q w" "upper w = pat"
  shows "contains (upper q) pat"
proof -
  from assms(1) obtain a b where "q = a @ w @ b" by (auto simp: contains_iff)
  then have "upper q = upper a @ pat @ upper b" by (simp add: upper_append assms(2))
  then show ?thesis unfolding contains_iff by blast
qed












section \<open>Properties of the SPARQL processor\<close>

lemma fold_add_missing_prefix:
  "fold (add_missing_prefix qu) ps decls =
     decls @ map (\<lambda>(p, u). prefix_declaration p u)
               (filter (\<lambda>(p, u). \<not> contains qu (prefix_pattern p)) ps)"
  by (induction ps arbitrary: decls) (auto simp: add_missing_prefix_def)

lemma add_default_prefixes_eq:
  "add_default_prefixes cfg q =
     (let missing = filter (\<lambda>(p, u). \<not> contains (upper q) (prefix_pattern p))
            (default_prefixes @ (case cfg_prefixes cfg of None \<Rightarrow> [] | Some custom \<Rightarrow> custom))
      in if missing = [] then q
         else join [CHR 0x0A] (map (\<lambda>(p, u). prefix_declaration p u) missing)
                @ [CHR 0x0A, CHR 0x0A] @ q)"
  by (simp add: add_default_prefixes_def Let_def fold_add_missing_prefix split: option.splits)

lemma default_prefix_patterns:
  "map (\<lambda>(p, u). prefix_pattern p) default_prefixes =
     map codes [''PREFIX RDF:'', ''PREFIX RDFS:'', ''PREFIX XSD:'', ''PREFIX OWL:'',
                ''PREFIX FOAF:'', ''PREFIX DC:'', ''PREFIX DCTERMS:'', ''PREFIX SKOS:'',
                ''PREFIX EX:'']"
  by code_simp




lemma get_query_type_values:
  "get_query_type q \<in> set [''SELECT'', ''CONSTRUCT'', ''ASK'', ''DESCRIBE'', ''UNKNOWN'']"
  by (simp add: get_query_type_def Let_def)

lemma contains_map:
  "inj f \<Longrightarrow> contains (map f s) (map f p) \<longleftrightarrow> contains s p"
proof (induction s)
  case Nil
  then show ?case by simp
next
  case (Cons x xs)
  have "take (length p) (map f (x # xs)) = map f (take (length p) (x # xs))"
    by (simp only: take_map)
  then have "take (length (map f p)) (map f (x # xs)) = map f p
      \<longleftrightarrow> take (length p) (x # xs) = p"
    using Cons.prems by (simp only: length_map inj_map_eq_map)
  with Cons show ?case by simp
qed

lemma contains_codes: "contains (codes s) (codes p) \<longleftrightarrow> contains s p"
  unfolding codes_def by (rule contains_map) (rule inj_of_char)

lemma prefix_pattern_examples:
    "prefix_pattern ''rdf'' = codes ''PREFIX RDF:''"
    "prefix_pattern ''rdfs'' = codes ''PREFIX RDFS:''"
    "prefix_pattern ''xsd'' = codes ''PREFIX XSD:''"
    "prefix_pattern ''owl'' = codes ''PREFIX OWL:''"
    "prefix_pattern ''foaf'' = codes ''PREFIX FOAF:''"
    "prefix_pattern ''dc'' = codes ''PREFIX DC:''"
    "prefix_pattern ''dcterms'' = codes ''PREFIX DCTERMS:''"
    "prefix_pattern ''skos'' = codes ''PREFIX SKOS:''"
    "prefix_pattern ''ex'' = codes ''PREFIX EX:''"
    "prefix_pattern ''my'' = codes ''PREFIX MY:''"
  by code_simp+

lemma upper_example_query:
  "upper ''prefix rdf: prefix rdfs: prefix xsd: prefix owl: prefix foaf: prefix dc: prefix dcterms: prefix skos: prefix ex: ask {}''
   = codes ''PREFIX RDF: PREFIX RDFS: PREFIX XSD: PREFIX OWL: PREFIX FOAF: PREFIX DC: PREFIX DCTERMS: PREFIX SKOS: PREFIX EX: ASK {}''"
  by code_simp

lemma example_query_patterns:
  "list_all (\<lambda>(p, u). contains (upper
     ''prefix rdf: prefix rdfs: prefix xsd: prefix owl: prefix foaf: prefix dc: prefix dcterms: prefix skos: prefix ex: ask {}'') (prefix_pattern p)) default_prefixes"
  by (simp add: default_prefixes_def prefix_pattern_examples upper_example_query
      contains_codes)

lemma example_query_custom:
  "\<not> contains (upper
     ''prefix rdf: prefix rdfs: prefix xsd: prefix owl: prefix foaf: prefix dc: prefix dcterms: prefix skos: prefix ex: ask {}'') (prefix_pattern ''my'')"
  by (simp add: prefix_pattern_examples upper_example_query contains_codes)

text \<open>
  Claim C3. \<open>_add_default_prefixes\<close> goes through the nine default prefixes and then
  through the custom prefixes of the configuration, in order, and declares exactly those
  whose pattern \<open>PREFIX NAME:\<close>, the name in upper case, is not a substring of the query
  in upper case; an occurrence of the pattern in the query in any case of letters
  counts. The declarations, one per line, and an empty line are put before the query,
  and \<open>_prepare_query\<close> hands the result to the preparation. A query that holds all nine
  patterns is handed over unchanged when the configuration has no custom prefixes.
\<close>

theorem add_default_prefixes_missing:
  "add_default_prefixes cfg q =
     (let missing = filter (\<lambda>(p, u). \<not> contains (upper q) (prefix_pattern p))
            (default_prefixes @ (case cfg_prefixes cfg of None \<Rightarrow> [] | Some custom \<Rightarrow> custom))
      in if missing = [] then q
         else join [CHR 0x0A] (map (\<lambda>(p, u). prefix_declaration p u) missing)
                @ [CHR 0x0A, CHR 0x0A] @ q)
   \<and> prepare_query prepareQuery cfg q = prepareQuery (add_default_prefixes cfg q)
   \<and> map (\<lambda>(p, u). prefix_pattern p) default_prefixes =
     map codes [''PREFIX RDF:'', ''PREFIX RDFS:'', ''PREFIX XSD:'', ''PREFIX OWL:'',
                ''PREFIX FOAF:'', ''PREFIX DC:'', ''PREFIX DCTERMS:'', ''PREFIX SKOS:'',
                ''PREFIX EX:'']
   \<and> (\<forall>w p. contains q w \<and> upper w = prefix_pattern p
          \<longrightarrow> contains (upper q) (prefix_pattern p))
   \<and> (cfg_prefixes cfg = None
        \<and> list_all (\<lambda>(p, u). contains (upper q) (prefix_pattern p)) default_prefixes
       \<longrightarrow> add_default_prefixes cfg q = q)"
proof (intro conjI allI impI)
  show "add_default_prefixes cfg q =
     (let missing = filter (\<lambda>(p, u). \<not> contains (upper q) (prefix_pattern p))
            (default_prefixes @ (case cfg_prefixes cfg of None \<Rightarrow> [] | Some custom \<Rightarrow> custom))
      in if missing = [] then q
         else join [CHR 0x0A] (map (\<lambda>(p, u). prefix_declaration p u) missing)
                @ [CHR 0x0A, CHR 0x0A] @ q)"
    by (rule add_default_prefixes_eq)
  show "prepare_query prepareQuery cfg q = prepareQuery (add_default_prefixes cfg q)"
    by (simp add: prepare_query_def)
  show "map (\<lambda>(p, u). prefix_pattern p) default_prefixes =
     map codes [''PREFIX RDF:'', ''PREFIX RDFS:'', ''PREFIX XSD:'', ''PREFIX OWL:'',
                ''PREFIX FOAF:'', ''PREFIX DC:'', ''PREFIX DCTERMS:'', ''PREFIX SKOS:'',
                ''PREFIX EX:'']"
    by (rule default_prefix_patterns)
  show "contains (upper q) (prefix_pattern p)"
    if "contains q w \<and> upper w = prefix_pattern p" for w p
    using that contains_upper by blast
  show "add_default_prefixes cfg q = q"
    if h: "cfg_prefixes cfg = None
        \<and> list_all (\<lambda>(p, u). contains (upper q) (prefix_pattern p)) default_prefixes"
  proof -
    from h
    have "filter (\<lambda>(p, u). \<not> contains (upper q) (prefix_pattern p)) default_prefixes = []"
      by (auto simp: filter_empty_conv list_all_iff)
    with h show ?thesis by (simp add: add_default_prefixes_eq)
  qed
qed

theorem add_default_prefixes_missing_witness:
  "add_default_prefixes default_config
     ''prefix rdf: prefix rdfs: prefix xsd: prefix owl: prefix foaf: prefix dc: prefix dcterms: prefix skos: prefix ex: ask {}''
   = ''prefix rdf: prefix rdfs: prefix xsd: prefix owl: prefix foaf: prefix dc: prefix dcterms: prefix skos: prefix ex: ask {}''"
proof -
  have h: "cfg_prefixes default_config = None
        \<and> list_all (\<lambda>(p, u). contains (upper
             ''prefix rdf: prefix rdfs: prefix xsd: prefix owl: prefix foaf: prefix dc: prefix dcterms: prefix skos: prefix ex: ask {}'') (prefix_pattern p)) default_prefixes"
    using example_query_patterns by (simp add: default_config_def)
  from add_default_prefixes_missing [of default_config
      "''prefix rdf: prefix rdfs: prefix xsd: prefix owl: prefix foaf: prefix dc: prefix dcterms: prefix skos: prefix ex: ask {}''",
      THEN conjunct2, THEN conjunct2, THEN conjunct2, THEN conjunct2, THEN mp, OF h]
  show ?thesis .
qed

text \<open>
  With a custom prefix in the configuration, a query that holds all nine patterns is
  not handed over unchanged: the declaration of the custom prefix is put before it.
\<close>

theorem add_default_prefixes_custom_counterexample:
  "contains (upper
     ''prefix rdf: prefix rdfs: prefix xsd: prefix owl: prefix foaf: prefix dc: prefix dcterms: prefix skos: prefix ex: ask {}'')
     (codes ''PREFIX RDF:'')
   \<and> contains (upper
     ''prefix rdf: prefix rdfs: prefix xsd: prefix owl: prefix foaf: prefix dc: prefix dcterms: prefix skos: prefix ex: ask {}'')
     (codes ''PREFIX RDFS:'')
   \<and> contains (upper
     ''prefix rdf: prefix rdfs: prefix xsd: prefix owl: prefix foaf: prefix dc: prefix dcterms: prefix skos: prefix ex: ask {}'')
     (codes ''PREFIX XSD:'')
   \<and> contains (upper
     ''prefix rdf: prefix rdfs: prefix xsd: prefix owl: prefix foaf: prefix dc: prefix dcterms: prefix skos: prefix ex: ask {}'')
     (codes ''PREFIX OWL:'')
   \<and> contains (upper
     ''prefix rdf: prefix rdfs: prefix xsd: prefix owl: prefix foaf: prefix dc: prefix dcterms: prefix skos: prefix ex: ask {}'')
     (codes ''PREFIX FOAF:'')
   \<and> contains (upper
     ''prefix rdf: prefix rdfs: prefix xsd: prefix owl: prefix foaf: prefix dc: prefix dcterms: prefix skos: prefix ex: ask {}'')
     (codes ''PREFIX DC:'')
   \<and> contains (upper
     ''prefix rdf: prefix rdfs: prefix xsd: prefix owl: prefix foaf: prefix dc: prefix dcterms: prefix skos: prefix ex: ask {}'')
     (codes ''PREFIX DCTERMS:'')
   \<and> contains (upper
     ''prefix rdf: prefix rdfs: prefix xsd: prefix owl: prefix foaf: prefix dc: prefix dcterms: prefix skos: prefix ex: ask {}'')
     (codes ''PREFIX SKOS:'')
   \<and> contains (upper
     ''prefix rdf: prefix rdfs: prefix xsd: prefix owl: prefix foaf: prefix dc: prefix dcterms: prefix skos: prefix ex: ask {}'')
     (codes ''PREFIX EX:'')
  
   \<and> add_default_prefixes
        \<lparr>cfg_namespaces = None, cfg_prefixes = Some [(''my'', ''http://my.example/'')]\<rparr>
        ''prefix rdf: prefix rdfs: prefix xsd: prefix owl: prefix foaf: prefix dc: prefix dcterms: prefix skos: prefix ex: ask {}''
     = ''PREFIX my: <http://my.example/>'' @ [CHR 0x0A, CHR 0x0A] @
        ''prefix rdf: prefix rdfs: prefix xsd: prefix owl: prefix foaf: prefix dc: prefix dcterms: prefix skos: prefix ex: ask {}''
   \<and> add_default_prefixes
        \<lparr>cfg_namespaces = None, cfg_prefixes = Some [(''my'', ''http://my.example/'')]\<rparr>
        ''prefix rdf: prefix rdfs: prefix xsd: prefix owl: prefix foaf: prefix dc: prefix dcterms: prefix skos: prefix ex: ask {}''
     \<noteq> ''prefix rdf: prefix rdfs: prefix xsd: prefix owl: prefix foaf: prefix dc: prefix dcterms: prefix skos: prefix ex: ask {}''"
proof -
  have f: "filter (\<lambda>(p, u). \<not> contains (upper
       ''prefix rdf: prefix rdfs: prefix xsd: prefix owl: prefix foaf: prefix dc: prefix dcterms: prefix skos: prefix ex: ask {}'') (prefix_pattern p))
     default_prefixes = []"
    using example_query_patterns
    by (simp add: list_all_iff filter_empty_conv split_def)
  have a: "add_default_prefixes
        \<lparr>cfg_namespaces = None, cfg_prefixes = Some [(''my'', ''http://my.example/'')]\<rparr>
        ''prefix rdf: prefix rdfs: prefix xsd: prefix owl: prefix foaf: prefix dc: prefix dcterms: prefix skos: prefix ex: ask {}''
     = ''PREFIX my: <http://my.example/>'' @ [CHR 0x0A, CHR 0x0A] @
        ''prefix rdf: prefix rdfs: prefix xsd: prefix owl: prefix foaf: prefix dc: prefix dcterms: prefix skos: prefix ex: ask {}''"
    by (simp add: add_default_prefixes_eq f example_query_custom prefix_declaration_def)
  have c: "contains (upper
     ''prefix rdf: prefix rdfs: prefix xsd: prefix owl: prefix foaf: prefix dc: prefix dcterms: prefix skos: prefix ex: ask {}'')
     (codes ''PREFIX RDF:'')
   \<and> contains (upper
     ''prefix rdf: prefix rdfs: prefix xsd: prefix owl: prefix foaf: prefix dc: prefix dcterms: prefix skos: prefix ex: ask {}'')
     (codes ''PREFIX RDFS:'')
   \<and> contains (upper
     ''prefix rdf: prefix rdfs: prefix xsd: prefix owl: prefix foaf: prefix dc: prefix dcterms: prefix skos: prefix ex: ask {}'')
     (codes ''PREFIX XSD:'')
   \<and> contains (upper
     ''prefix rdf: prefix rdfs: prefix xsd: prefix owl: prefix foaf: prefix dc: prefix dcterms: prefix skos: prefix ex: ask {}'')
     (codes ''PREFIX OWL:'')
   \<and> contains (upper
     ''prefix rdf: prefix rdfs: prefix xsd: prefix owl: prefix foaf: prefix dc: prefix dcterms: prefix skos: prefix ex: ask {}'')
     (codes ''PREFIX FOAF:'')
   \<and> contains (upper
     ''prefix rdf: prefix rdfs: prefix xsd: prefix owl: prefix foaf: prefix dc: prefix dcterms: prefix skos: prefix ex: ask {}'')
     (codes ''PREFIX DC:'')
   \<and> contains (upper
     ''prefix rdf: prefix rdfs: prefix xsd: prefix owl: prefix foaf: prefix dc: prefix dcterms: prefix skos: prefix ex: ask {}'')
     (codes ''PREFIX DCTERMS:'')
   \<and> contains (upper
     ''prefix rdf: prefix rdfs: prefix xsd: prefix owl: prefix foaf: prefix dc: prefix dcterms: prefix skos: prefix ex: ask {}'')
     (codes ''PREFIX SKOS:'')
   \<and> contains (upper
     ''prefix rdf: prefix rdfs: prefix xsd: prefix owl: prefix foaf: prefix dc: prefix dcterms: prefix skos: prefix ex: ask {}'')
     (codes ''PREFIX EX:'')
  "
    using example_query_patterns
    by (simp add: default_prefixes_def prefix_pattern_examples)
  from a c show ?thesis by simp
qed



end
